theory Spec2Isabelle
  imports Complex_Main
begin

section \<open>Dimension selection via Wasserstein distance: the notebook's functions\<close>

text \<open>
  The notebook \<^verbatim>\<open>dimension_selection/wasserstein.ipynb\<close> defines \<^verbatim>\<open>pc_scores\<close>,
  \<^verbatim>\<open>poly_kernel\<close>, \<^verbatim>\<open>make_circle\<close> and \<^verbatim>\<open>wasserstein_dim_select\<close> on NumPy arrays.
  Array entries and the fraction \<open>split\<close> are modelled as exact reals (no rounding, so
  \<open>n * split\<close> is the exact product), Python integers as \<open>int\<close>, and every exception
  the code can raise as a value of type \<open>error\<close>.
\<close>

subsection \<open>Arrays and exceptions\<close>

text \<open>
  A two-dimensional array carries its shape: \<open>A.shape = (nrows A, ncols A)\<close>. The column
  count is a field of its own, so that an array with no rows still knows its width, as
  \<^verbatim>\<open>Y[:0,:]\<close> does in NumPy.
\<close>

record matrix =
  ncols :: nat
  rows :: "real list list"

definition nrows :: "matrix \<Rightarrow> nat" where
  "nrows A = length (rows A)"

definition wf_matrix :: "matrix \<Rightarrow> bool" where
  "wf_matrix A = list_all (\<lambda>r. length r = ncols A) (rows A)"

definition el :: "matrix \<Rightarrow> nat \<Rightarrow> nat \<Rightarrow> real" where
  "el A i j = rows A ! i ! j"

text \<open>\<^verbatim>\<open>min(A.shape)\<close>\<close>

definition min_shape :: "matrix \<Rightarrow> nat" where
  "min_shape A = min (nrows A) (ncols A)"

datatype error = ValueError | IndexError | ZeroDivisionError | ComputationError


text \<open>
  The external solvers may keep hidden state (a random start vector, say), so a
  computation takes the state of the providers and returns the new one beside its
  outcome.
\<close>

type_synonym ('a, 'st) comp = "'st \<Rightarrow> (error + 'a) \<times> 'st"

definition ret :: "'a \<Rightarrow> ('a, 'st) comp" where
  "ret x = (\<lambda>st. (Inr x, st))"

definition pure_step :: "error + 'a \<Rightarrow> ('a, 'st) comp" where
  "pure_step r = (\<lambda>st. (r, st))"

definition seq :: "('a, 'st) comp \<Rightarrow> ('a \<Rightarrow> ('b, 'st) comp) \<Rightarrow> ('b, 'st) comp" where
  "seq m f = (\<lambda>st. case m st of (Inl e, st') \<Rightarrow> (Inl e, st') | (Inr x, st') \<Rightarrow> f x st')"

subsection \<open>Python and NumPy primitives\<close>

text \<open>Python 3 \<^verbatim>\<open>round(x)\<close> on a float: to the nearest integer, ties to the even one.\<close>

definition py_round :: "real \<Rightarrow> int" where
  "py_round x = (let f = \<lfloor>x\<rfloor>; d = x - of_int f in
     if d < 1/2 then f else if 1/2 < d then f + 1 else if even f then f else f + 1)"

text \<open>
  A slice bound \<open>k\<close> on an axis of length \<open>n\<close>: a negative bound counts from the end, and
  every bound is clipped to \<open>0..n\<close>.
\<close>

definition clip :: "nat \<Rightarrow> int \<Rightarrow> nat" where
  "clip n k = (if k < 0 then nat (max 0 (int n + k)) else min (nat k) n)"

definition slice :: "int \<Rightarrow> int \<Rightarrow> 'a list \<Rightarrow> 'a list" where
  "slice lo hi xs = take (clip (length xs) hi - clip (length xs) lo) (drop (clip (length xs) lo) xs)"

text \<open>\<^verbatim>\<open>A[lo:hi,:]\<close> and \<^verbatim>\<open>A[:,lo:hi]\<close>; \<^verbatim>\<open>A[:hi,:]\<close> is \<open>slice_rows 0 hi A\<close>.\<close>

definition slice_rows :: "int \<Rightarrow> int \<Rightarrow> matrix \<Rightarrow> matrix" where
  "slice_rows lo hi A = \<lparr>ncols = ncols A, rows = slice lo hi (rows A)\<rparr>"

definition slice_cols :: "int \<Rightarrow> int \<Rightarrow> matrix \<Rightarrow> matrix" where
  "slice_cols lo hi A =
     \<lparr>ncols = clip (ncols A) hi - clip (ncols A) lo, rows = map (slice lo hi) (rows A)\<rparr>"

text \<open>\<^verbatim>\<open>A.T\<close>\<close>

definition T :: "matrix \<Rightarrow> matrix" where
  "T A = \<lparr>ncols = nrows A, rows = map (\<lambda>j. map (\<lambda>r. r ! j) (rows A)) [0..<ncols A]\<rparr>"

definition dot :: "real list \<Rightarrow> real list \<Rightarrow> real" where
  "dot a b = sum_list (map2 (*) a b)"

text \<open>\<^verbatim>\<open>A @ B\<close>: NumPy raises \<open>ValueError\<close> when the inner dimensions differ.\<close>

definition matmul :: "matrix \<Rightarrow> matrix \<Rightarrow> error + matrix" where
  "matmul A B =
     (if ncols A \<noteq> nrows B then Inl ValueError
      else Inr \<lparr>ncols = ncols B, rows = map (\<lambda>a. map (\<lambda>b. dot a b) (rows (T B))) (rows A)\<rparr>)"

text \<open>
  \<^verbatim>\<open>s.argsort()\<close>: the indices that sort \<open>s\<close> ascending. Ties are kept in index order
  here; no property below depends on how ties are broken.
\<close>

definition argsort :: "real list \<Rightarrow> nat list" where
  "argsort s = sort_key (\<lambda>i. s ! i) [0..<length s]"

text \<open>\<^verbatim>\<open>A[idx,:]\<close> with an index array: an index beyond the last row raises \<open>IndexError\<close>.\<close>

definition take_rows :: "matrix \<Rightarrow> nat list \<Rightarrow> error + matrix" where
  "take_rows A idx =
     (if list_all (\<lambda>i. i < nrows A) idx
      then Inr \<lparr>ncols = ncols A, rows = map (\<lambda>i. rows A ! i) idx\<rparr>
      else Inl IndexError)"

text \<open>\<^verbatim>\<open>np.repeat(1/n, n)\<close> with a Python integer \<open>n\<close>: \<^verbatim>\<open>1/0\<close> raises.\<close>

definition uniform :: "nat \<Rightarrow> error + real list" where
  "uniform n = (if n = 0 then Inl ZeroDivisionError else Inr (replicate n (1 / real n)))"

subsection \<open>The external providers\<close>

text \<open>
  Two routines of external libraries are parameters of the model: the truncated SVD
  \<^verbatim>\<open>sparse.linalg.svds(A, k)\<close>, which returns \<open>(U, s, Vh)\<close>, and the transport solver
  \<^verbatim>\<open>ot.emd2(a, b, M)\<close>, which returns the optimal cost. Each returns a value or a
  failure, and the next state of the provider.
\<close>

type_synonym svd = "matrix \<times> real list \<times> matrix"

type_synonym 'st svds_provider = "matrix \<Rightarrow> int \<Rightarrow> (svd, 'st) comp"

type_synonym 'st emd2_provider = "real list \<Rightarrow> real list \<Rightarrow> matrix \<Rightarrow> (real, 'st) comp"

text \<open>
  Modelled from the spec: the rank check of the truncated-SVD routine
  \<^verbatim>\<open>scipy.sparse.linalg.svds\<close>, whose code is not in the repository. The spec gives its
  ceiling: the call fails with an invalid-input error when the rank \<open>k\<close> is below 1 or
  exceeds \<open>min(A.shape) - 1\<close>. The numerical core \<open>core\<close> of the routine stays a
  parameter.
\<close>

definition svds_checked :: "'st svds_provider \<Rightarrow> 'st svds_provider" where
  "svds_checked core A k =
     (if k < 1 \<or> int (min_shape A) - 1 < k then pure_step (Inl ValueError) else core A k)"

text \<open>
  Modelled from the spec: the Euclidean ground cost between two points, the entry of the
  cost matrix that \<^verbatim>\<open>ot.dist\<close> computes; its code is not in the repository.
\<close>

definition euclidean :: "real list \<Rightarrow> real list \<Rightarrow> real" where
  "euclidean x y = sqrt (sum_list (map2 (\<lambda>a b. (a - b)\<^sup>2) x y))"

text \<open>
  Modelled from the spec: \<^verbatim>\<open>ot.dist(X, Y, metric='euclidean')\<close> of the optimal-transport
  library, whose code is not in the repository: the matrix of pairwise Euclidean
  distances between the rows of \<open>X\<close> and the rows of \<open>Y\<close>. Points of different
  dimensions are rejected.
\<close>

definition ot_dist :: "matrix \<Rightarrow> matrix \<Rightarrow> error + matrix" where
  "ot_dist X Y =
     (if ncols X \<noteq> ncols Y then Inl ValueError
      else Inr \<lparr>ncols = nrows Y, rows = map (\<lambda>x. map (\<lambda>y. euclidean x y) (rows Y)) (rows X)\<rparr>)"

subsection \<open>The notebook's functions\<close>

text \<open>
  \<^verbatim>\<open>
  def poly_kernel(Z,c,r):
      return (Z @ Z.T + c) ** r
  \<close>
  \<open>pw\<close> is the scalar power that \<^verbatim>\<open>**\<close> applies to each entry.
\<close>

definition poly_kernel :: "(real \<Rightarrow> 'r \<Rightarrow> real) \<Rightarrow> matrix \<Rightarrow> real \<Rightarrow> 'r \<Rightarrow> error + matrix" where
  "poly_kernel pw Z c r =
     (case matmul Z (T Z) of
        Inl e \<Rightarrow> Inl e
      | Inr G \<Rightarrow> Inr \<lparr>ncols = ncols G, rows = map (map (\<lambda>x. pw (x + c) r)) (rows G)\<rparr>)"

text \<open>
  \<^verbatim>\<open>
  def pc_scores(X, r, return_eig = None):
      U, s, Vh = sparse.linalg.svds(X,k=r)
      idx = s.argsort()[::-1]
      s = s[idx]
      Vh = Vh[idx,:]
      Y = X @ Vh.T
      if return_eig is not None:
          return Y, s
      else:
          return Y
  \<close>
  The argument \<open>return_eig\<close> is \<open>None\<close> or \<open>Some v\<close> for any other Python object \<open>v\<close>.
\<close>

datatype pc_result = Scores matrix | ScoresEig matrix "real list"

definition pc_scores ::
  "'st svds_provider \<Rightarrow> matrix \<Rightarrow> int \<Rightarrow> 'v option \<Rightarrow> (pc_result, 'st) comp" where
  "pc_scores svds X r return_eig =
     seq (svds X r) (\<lambda>(U, s, Vh).
       let idx = rev (argsort s); s' = map (\<lambda>i. s ! i) idx in
       seq (pure_step (take_rows Vh idx)) (\<lambda>Vh'.
       seq (pure_step (matmul X (T Vh'))) (\<lambda>Y.
       if return_eig \<noteq> None then ret (ScoresEig Y s') else ret (Scores Y))))"

text \<open>
  One turn of the loop of \<^verbatim>\<open>wasserstein_dim_select\<close>:
  \<^verbatim>\<open>
      P = Vh.T[:,:r] @ Vh[:r,:]
      Yproj = Ytrain @ P.T
      n1 = Yproj.shape[0]
      n2 = Ytest.shape[0]
      M = ot.dist(Yproj,Ytest, metric='euclidean')
      W1 = ot.emd2(np.repeat(1/n1,n1),np.repeat(1/n2,n2),M)
  \<close>
\<close>

definition projection :: "matrix \<Rightarrow> int \<Rightarrow> error + matrix" where
  "projection Vh r = matmul (slice_cols 0 r (T Vh)) (slice_rows 0 r Vh)"

definition w1_at_rank ::
  "'st emd2_provider \<Rightarrow> matrix \<Rightarrow> matrix \<Rightarrow> matrix \<Rightarrow> int \<Rightarrow> (real, 'st) comp" where
  "w1_at_rank emd2 Ytrain Ytest Vh r =
     seq (pure_step (projection Vh r)) (\<lambda>P.
     seq (pure_step (matmul Ytrain (T P))) (\<lambda>Yproj.
     let n1 = nrows Yproj; n2 = nrows Ytest in
     seq (pure_step (ot_dist Yproj Ytest)) (\<lambda>M.
     seq (pure_step (uniform n1)) (\<lambda>a.
     seq (pure_step (uniform n2)) (\<lambda>b.
     emd2 a b M)))))"

text \<open>
  The loop \<^verbatim>\<open>for r in range(1,rtry+1): ...; ws.append(W1)\<close>, with the list \<open>ws\<close> built
  so far as an accumulator.
\<close>

fun ws_loop ::
  "'st emd2_provider \<Rightarrow> matrix \<Rightarrow> matrix \<Rightarrow> matrix \<Rightarrow> real list \<Rightarrow> int list \<Rightarrow> (real list, 'st) comp" where
  "ws_loop emd2 Ytrain Ytest Vh ws [] = ret ws"
| "ws_loop emd2 Ytrain Ytest Vh ws (r # rs) =
     seq (w1_at_rank emd2 Ytrain Ytest Vh r) (\<lambda>W1. ws_loop emd2 Ytrain Ytest Vh (ws @ [W1]) rs)"

text \<open>
  \<^verbatim>\<open>
  def wasserstein_dim_select(Y, split = 0.5, rmax = 50):
      n = Y.shape[0]
      train = round(n * split)
      rtry = int(np.min((train, rmax)))
      Ytrain = Y[:train,:]
      Ytest = Y[train:n,:]
      U, s, Vh = sparse.linalg.svds(Ytrain,k=rmax)
      idx = s.argsort()[::-1]
      s = s[idx]
      Vh = Vh[idx,:]
      ws = []
      for r in range(1,rtry+1):
          ...
      return ws
  \<close>
\<close>

definition train_size :: "matrix \<Rightarrow> real \<Rightarrow> int" where
  "train_size Y split = py_round (real (nrows Y) * split)"

definition wasserstein_dim_select ::
  "'st svds_provider \<Rightarrow> 'st emd2_provider \<Rightarrow> matrix \<Rightarrow> real \<Rightarrow> int \<Rightarrow> (real list, 'st) comp" where
  "wasserstein_dim_select svds emd2 Y split rmax =
     (let n = nrows Y;
          train = train_size Y split;
          rtry = min train rmax;
          Ytrain = slice_rows 0 train Y;
          Ytest = slice_rows train (int n) Y
      in seq (svds Ytrain rmax) (\<lambda>(U, s, Vh).
           let idx = rev (argsort s); s' = map (\<lambda>i. s ! i) idx in
           seq (pure_step (take_rows Vh idx)) (\<lambda>Vh'.
           ws_loop emd2 Ytrain Ytest Vh' [] [1..rtry])))"

subsection \<open>Properties of providers and of arrays used in the statements\<close>

text \<open>
  What a truncated-SVD routine promises about the shape of a result for an \<open>m \<times> p\<close>
  array: one right singular vector of length \<open>p\<close> per singular value.
\<close>

definition svd_shape_ok :: "matrix \<Rightarrow> svd \<Rightarrow> bool" where
  "svd_shape_ok A usv = (case usv of (U, s, Vh) \<Rightarrow>
     wf_matrix Vh \<and> nrows Vh = length s \<and> ncols Vh = ncols A)"

definition svds_contract :: "'st svds_provider \<Rightarrow> bool" where
  "svds_contract core = (\<forall>A k st.
     case fst (core A k st) of Inl e \<Rightarrow> e = ComputationError | Inr usv \<Rightarrow> svd_shape_ok A usv)"

definition emd2_contract :: "'st emd2_provider \<Rightarrow> bool" where
  "emd2_contract emd2 = (\<forall>a b M st.
     case fst (emd2 a b M st) of Inl e \<Rightarrow> e = ComputationError | Inr w \<Rightarrow> True)"

text \<open>Uniform weights, nonnegative cost matrices, and a transport solver that is
  nonnegative on them.\<close>

definition uniform_weights :: "real list \<Rightarrow> bool" where
  "uniform_weights a = (a \<noteq> [] \<and> a = replicate (length a) (1 / real (length a)))"

definition nonneg_matrix :: "matrix \<Rightarrow> bool" where
  "nonneg_matrix M = list_all (list_all (\<lambda>x. 0 \<le> x)) (rows M)"

definition emd2_nonneg :: "'st emd2_provider \<Rightarrow> bool" where
  "emd2_nonneg emd2 = (\<forall>a b M st w.
     uniform_weights a \<and> uniform_weights b \<and> nonneg_matrix M \<and> fst (emd2 a b M st) = Inr w
       \<longrightarrow> 0 \<le> w)"



text \<open>The rows of an array are orthonormal.\<close>

definition orthonormal_rows :: "matrix \<Rightarrow> bool" where
  "orthonormal_rows V = list_all (\<lambda>i. list_all (\<lambda>j.
     dot (rows V ! i) (rows V ! j) = (if i = j then 1 else 0)) [0..<nrows V]) [0..<nrows V]"

text \<open>The outcome of a computation does not depend on the hidden state of the providers.\<close>

definition deterministic :: "('a, 'st) comp \<Rightarrow> bool" where
  "deterministic c = (\<forall>st st'. fst (c st) = fst (c st'))"




subsection \<open>Example inputs and example providers\<close>

text \<open>
  A data matrix with four observations of three features; its first three rows are
  \<open>diag(2, 1, 0)\<close>.
\<close>

definition A0 :: matrix where
  "A0 = \<lparr>ncols = 3, rows = [[2, 0, 0], [0, 1, 0], [0, 0, 0]]\<rparr>"

definition Y0 :: matrix where
  "Y0 = \<lparr>ncols = 3, rows = [[2, 0, 0], [0, 1, 0], [0, 0, 0], [0, 0, 0]]\<rparr>"

definition Y1 :: matrix where
  "Y1 = \<lparr>ncols = 2, rows = [[1, 0], [0, 1]]\<rparr>"


definition Z0 :: matrix where
  "Z0 = \<lparr>ncols = 2, rows = [[1, 0], [0, 1], [1, 1]]\<rparr>"

text \<open>
  A numerical core that knows the truncated decompositions of \<open>diag(2, 1, 0)\<close> of rank 2
  (singular values in ascending order, as an iterative solver returns them) and of rank 1,
  and reports non-convergence on every other request. Its state counts the requests.
\<close>

definition example_core :: "nat svds_provider" where
  "example_core A k st =
     (if A = A0 \<and> k = 2 then
        Inr (\<lparr>ncols = 2, rows = [[0, 1], [1, 0], [0, 0]]\<rparr>, [1, 2],
             \<lparr>ncols = 3, rows = [[0, 1, 0], [1, 0, 0]]\<rparr>)
      else if A = A0 \<and> k = 1 then
        Inr (\<lparr>ncols = 1, rows = [[1], [0], [0]]\<rparr>, [2], \<lparr>ncols = 3, rows = [[1, 0, 0]]\<rparr>)
      else Inl ComputationError, Suc st)"

text \<open>
  A transport solver for a single target point of mass 1: every source point moves
  there, so the cost is the weighted sum of the only column of the cost matrix. It
  reports failure on every other request.
\<close>

definition example_emd2 :: "nat emd2_provider" where
  "example_emd2 a b M st =
     (if b = [1] \<and> ncols M = 1 \<and> length a = nrows M
      then Inr (sum_list (map2 (\<lambda>w r. w * sum_list r) a (rows M)))
      else Inl ComputationError, Suc st)"

text \<open>Two orthonormal vectors of the plane \<open>z = 0\<close>, and the projection onto the first.\<close>

definition V0 :: matrix where
  "V0 = \<lparr>ncols = 3, rows = [[3/5, 4/5, 0], [-4/5, 3/5, 0]]\<rparr>"

definition P0 :: matrix where
  "P0 = \<lparr>ncols = 3, rows = [[9/25, 12/25, 0], [12/25, 16/25, 0], [0, 0, 0]]\<rparr>"

text \<open>A transport solver whose answer is its hidden state: not deterministic.\<close>

definition noisy_emd2 :: "nat emd2_provider" where
  "noisy_emd2 a b M st = (Inr (real st), Suc st)"

lemmas eval_defs =
  wasserstein_dim_select_def pc_scores_def poly_kernel_def train_size_def py_round_def Let_def
  nrows_def slice_rows_def slice_cols_def slice_def clip_def svds_checked_def min_shape_def
  pure_step_def seq_def ret_def argsort_def take_rows_def w1_at_rank_def projection_def
  matmul_def T_def ot_dist_def euclidean_def uniform_def dot_def wf_matrix_def
  example_core_def example_emd2_def A0_def Y0_def Y1_def Z0_def upt_rec upto.simps

section \<open>Arrays: shapes, entries, products\<close>

lemma nrows_simps [simp]: "nrows \<lparr>ncols = c, rows = rs\<rparr> = length rs"
  by (simp add: nrows_def)

lemma wf_matrix_nth: "wf_matrix A \<Longrightarrow> i < nrows A \<Longrightarrow> length (rows A ! i) = ncols A"
  by (simp add: wf_matrix_def nrows_def list_all_length)

lemma wf_matrixI: "(\<And>i. i < nrows A \<Longrightarrow> length (rows A ! i) = ncols A) \<Longrightarrow> wf_matrix A"
  by (simp add: wf_matrix_def nrows_def list_all_length)

text \<open>Two well-formed arrays of the same shape with the same entries are equal.\<close>

lemma matrix_eqI:
  assumes "ncols A = ncols B" and "nrows A = nrows B" and "wf_matrix A" and "wf_matrix B"
    and "\<And>i j. i < nrows A \<Longrightarrow> j < ncols A \<Longrightarrow> el A i j = el B i j"
  shows "A = B"
proof -
  have "rows A = rows B"
  proof (rule nth_equalityI)
    show "length (rows A) = length (rows B)"
      using assms(2) by (simp add: nrows_def)
  next
    fix i assume i: "i < length (rows A)"
    then have iA: "i < nrows A" and iB: "i < nrows B"
      using assms(2) by (simp_all add: nrows_def)
    show "rows A ! i = rows B ! i"
    proof (rule nth_equalityI)
      show "length (rows A ! i) = length (rows B ! i)"
        using wf_matrix_nth [OF assms(3) iA] wf_matrix_nth [OF assms(4) iB] assms(1) by simp
    next
      fix j assume "j < length (rows A ! i)"
      then have "j < ncols A"
        using wf_matrix_nth [OF assms(3) iA] by simp
      then show "rows A ! i ! j = rows B ! i ! j"
        using assms(5) [OF iA] by (simp add: el_def)
    qed
  qed
  then show ?thesis
    using assms(1) by simp
qed

lemma ncols_T [simp]: "ncols (T A) = nrows A"
  by (simp add: T_def)

lemma nrows_T [simp]: "nrows (T A) = ncols A"
  by (simp add: T_def)

lemma wf_T [simp]: "wf_matrix (T A)"
  by (simp add: T_def wf_matrix_def list_all_length nrows_def)

lemma el_T: "i < ncols A \<Longrightarrow> j < nrows A \<Longrightarrow> el (T A) i j = el A j i"
  by (simp add: T_def el_def nrows_def)

lemma T_T: "wf_matrix A \<Longrightarrow> T (T A) = A"
  by (rule matrix_eqI) (simp_all add: el_T)

lemma dot_commute: "dot a b = dot b a"
proof -
  have "map2 (*) a b = map2 (*) b a"
  proof (induction a arbitrary: b)
    case Nil
    show ?case by simp
  next
    case (Cons x xs)
    show ?case
      by (cases b) (simp_all add: mult.commute Cons.IH)
  qed
  then show ?thesis by (simp add: dot_def)
qed

lemma dot_sum: "length a = length b \<Longrightarrow> dot a b = (\<Sum>k<length a. a ! k * b ! k)"
proof -
  assume len: "length a = length b"
  have "dot a b = (\<Sum>k = 0..<length (map2 (*) a b). map2 (*) a b ! k)"
    unfolding dot_def by (rule sum_list_sum_nth)
  also have "\<dots> = (\<Sum>k = 0..<length a. a ! k * b ! k)"
    using len by (intro sum.cong) simp_all
  finally show ?thesis
    by (simp add: lessThan_atLeast0)
qed

lemma matmul_Inr:
  "ncols A = nrows B \<Longrightarrow>
   matmul A B = Inr \<lparr>ncols = ncols B, rows = map (\<lambda>a. map (\<lambda>b. dot a b) (rows (T B))) (rows A)\<rparr>"
  by (simp add: matmul_def)

lemma matmul_shape:
  assumes "matmul A B = Inr C"
  shows "ncols C = ncols B" and "nrows C = nrows A" and "wf_matrix C" and "ncols A = nrows B"
  using assms
  by (auto simp: matmul_def wf_matrix_def list_all_length nrows_def T_def split: if_splits)

text \<open>The entries of a product are the usual sums.\<close>

lemma matmul_el:
  assumes C: "matmul A B = Inr C" and A: "wf_matrix A" and B: "wf_matrix B"
    and i: "i < nrows A" and j: "j < ncols B"
  shows "el C i j = (\<Sum>k<ncols A. el A i k * el B k j)"
proof -
  have inner: "ncols A = nrows B"
    using C by (rule matmul_shape)
  have rowi: "length (rows A ! i) = ncols A"
    using A i by (rule wf_matrix_nth)
  have "el C i j = dot (rows A ! i) (rows (T B) ! j)"
    using C i j inner by (auto simp: matmul_def el_def nrows_def T_def split: if_splits)
  also have "rows (T B) ! j = map (\<lambda>r. r ! j) (rows B)"
    using j by (simp add: T_def)
  also have "dot (rows A ! i) (map (\<lambda>r. r ! j) (rows B)) =
      (\<Sum>k<ncols A. rows A ! i ! k * map (\<lambda>r. r ! j) (rows B) ! k)"
    using rowi inner by (subst dot_sum) (simp_all add: nrows_def)
  also have "\<dots> = (\<Sum>k<ncols A. el A i k * el B k j)"
    using inner by (intro sum.cong) (simp_all add: el_def nrows_def)
  finally show ?thesis .
qed

section \<open>The polynomial kernel\<close>

lemma poly_kernel_rows:
  assumes "wf_matrix Z"
  shows "poly_kernel pw Z c r =
    Inr \<lparr>ncols = nrows Z, rows = map (\<lambda>a. map (\<lambda>b. pw (dot a b + c) r) (rows Z)) (rows Z)\<rparr>"
  using assms by (simp add: poly_kernel_def matmul_Inr T_T comp_def)

text \<open>
  Claim C10. For every array \<open>Z\<close>, shift \<open>c\<close> and exponent \<open>r\<close>, \<open>poly_kernel Z c r\<close>
  returns an array, the entrywise power of \<open>Z @ Z.T + c\<close>, and that array equals its own
  transpose. This holds whatever the scalar power \<open>pw\<close> computes on an entry.
\<close>

theorem poly_kernel_symmetric:
  assumes "wf_matrix Z"
  shows "\<exists>K. poly_kernel pw Z c r = Inr K \<and> T K = K"
proof -
  define K where
    "K = \<lparr>ncols = nrows Z, rows = map (\<lambda>a. map (\<lambda>b. pw (dot a b + c) r) (rows Z)) (rows Z)\<rparr>"
  have K: "poly_kernel pw Z c r = Inr K"
    unfolding K_def using assms by (rule poly_kernel_rows)
  have shape: "ncols K = nrows Z" "nrows K = nrows Z"
    by (simp_all add: K_def nrows_def)
  have wf: "wf_matrix K"
    by (simp add: K_def wf_matrix_def list_all_length nrows_def)
  have entry: "el K i j = pw (dot (rows Z ! i) (rows Z ! j) + c) r"
    if "i < nrows Z" "j < nrows Z" for i j
    using that by (simp add: K_def el_def nrows_def)
  have "T K = K"
  proof (rule matrix_eqI)
    fix i j assume "i < nrows (T K)" "j < ncols (T K)"
    then have ij: "i < nrows Z" "j < nrows Z"
      using shape by simp_all
    then have "el (T K) i j = el K j i"
      using shape by (simp add: el_T)
    also have "\<dots> = el K i j"
      using ij by (simp add: entry dot_commute)
    finally show "el (T K) i j = el K i j" .
  qed (simp_all add: shape wf)
  with K show ?thesis by blast
qed

text \<open>The kernel of the notebook, \<open>(Z Z\<^sup>T + 1)\<^sup>2\<close>, on three points of the plane.\<close>

theorem poly_kernel_symmetric_witness:
  "wf_matrix Z0 \<and>
   poly_kernel (\<lambda>x n. x ^ n) Z0 1 (2::nat) = Inr \<lparr>ncols = 3, rows = [[4, 1, 4], [1, 4, 4], [4, 4, 9]]\<rparr> \<and>
   T \<lparr>ncols = 3, rows = [[4, 1, 4], [1, 4, 4], [4, 4, 9]]\<rparr> = \<lparr>ncols = 3, rows = [[4, 1, 4], [1, 4, 4], [4, 4, 9]]\<rparr>"
proof -
  have wf: "wf_matrix Z0"
    by (simp add: eval_defs)
  have val: "poly_kernel (\<lambda>x n. x ^ n) Z0 1 (2::nat) =
      Inr \<lparr>ncols = 3, rows = [[4, 1, 4], [1, 4, 4], [4, 4, 9]]\<rparr>"
    by (simp add: eval_defs)
  from poly_kernel_symmetric [OF wf, of "\<lambda>x n. x ^ n" 1 "2::nat"] val wf
  show ?thesis by auto
qed

section \<open>Computations and slices\<close>

lemma pure_step_apply [simp]: "pure_step r st = (r, st)"
  by (simp add: pure_step_def)

lemma ret_apply [simp]: "ret x st = (Inr x, st)"
  by (simp add: ret_def)

lemma seq_Inr_iff:
  "fst (seq m f st) = Inr y \<longleftrightarrow> (\<exists>x st'. m st = (Inr x, st') \<and> fst (f x st') = Inr y)"
  by (auto simp: seq_def split: prod.splits sum.splits)

lemma seq_Inl: "m st = (Inl e, st') \<Longrightarrow> seq m f st = (Inl e, st')"
  by (simp add: seq_def)

lemma seq_Inr: "m st = (Inr x, st') \<Longrightarrow> seq m f st = f x st'"
  by (simp add: seq_def)

lemma py_round_nonneg: "0 \<le> x \<Longrightarrow> 0 \<le> py_round x"
proof -
  assume "0 \<le> x"
  then have "0 \<le> \<lfloor>x\<rfloor>" by simp
  then show ?thesis
    by (simp add: py_round_def Let_def)
qed

lemma train_size_nonneg: "0 \<le> split \<Longrightarrow> 0 \<le> train_size Y split"
  by (simp add: train_size_def py_round_nonneg)

lemma clip_le: "clip n k \<le> n"
  by (auto simp: clip_def)

lemma clip_0 [simp]: "clip n 0 = 0"
  by (simp add: clip_def)

lemma clip_nonneg: "0 \<le> k \<Longrightarrow> clip n k = min (nat k) n"
  by (simp add: clip_def)

lemma nrows_slice_rows:
  "nrows (slice_rows lo hi A) = clip (nrows A) hi - clip (nrows A) lo"
  using clip_le [of "nrows A" hi]
  by (simp add: slice_rows_def slice_def nrows_def)

lemma ncols_slice_rows [simp]: "ncols (slice_rows lo hi A) = ncols A"
  by (simp add: slice_rows_def)

lemma svds_checked_Inr:
  assumes "fst (svds_checked core A k st) = Inr usv"
  shows "1 \<le> k" and "k < int (nrows A)" and "k < int (ncols A)"
    and "svds_checked core A k st = core A k st"
  using assms by (auto simp: svds_checked_def min_shape_def split: if_splits)

section \<open>A run of the selector on the example\<close>


lemma example_run:
  "wasserstein_dim_select (svds_checked example_core) example_emd2 Y0 (3/4) 2 0 = (Inr [2/3, 1], 3)"
  by (simp add: eval_defs)

lemma example_run_rank1:
  "wasserstein_dim_select (svds_checked example_core) example_emd2 Y0 (3/4) 1 0 = (Inr [2/3], 2)"
  by (simp add: eval_defs)

lemma floor_neg_one: "\<lfloor>- 1 :: real\<rfloor> = - 1"
  using floor_of_int [of "- 1", where ?'a = real] by simp

text \<open>
  A negative fraction: \<open>split = -1/4\<close> gives \<open>train = -1\<close>, the slice \<open>Y[:-1,:]\<close> keeps
  the first three rows, the decomposition of rank 2 is computed, \<open>range(1, 0)\<close> is empty
  and the call returns the empty list.
\<close>

lemma example_negative_split:
  "train_size Y0 (-1/4) = -1"
  "slice_rows 0 (-1) Y0 = A0"
  "wasserstein_dim_select (svds_checked example_core) example_emd2 Y0 (-1/4) 2 0 = (Inr [], 1)"
  by (simp_all add: eval_defs floor_neg_one)


section \<open>The length of the distance curve\<close>

lemma ws_loop_length:
  "fst (ws_loop emd2 Ytrain Ytest Vh acc rs st) = Inr ws \<Longrightarrow> length ws = length acc + length rs"
proof (induction rs arbitrary: acc st)
  case Nil
  then show ?case by auto
next
  case (Cons r rs)
  from Cons.prems obtain W1 st' where
    "fst (ws_loop emd2 Ytrain Ytest Vh (acc @ [W1]) rs st') = Inr ws"
    by (auto simp: seq_Inr_iff)
  from Cons.IH [OF this] show ?case by simp
qed

lemma wds_length:
  assumes "fst (wasserstein_dim_select svds emd2 Y split rmax st) = Inr ws"
  shows "length ws = nat (min (train_size Y split) rmax)"
proof -
  from assms obtain Ytrain Ytest Vh' st' where
    "fst (ws_loop emd2 Ytrain Ytest Vh' [] [1..min (train_size Y split) rmax] st') = Inr ws"
    by (auto simp: wasserstein_dim_select_def Let_def seq_Inr_iff split: prod.splits)
  from ws_loop_length [OF this] show ?thesis by simp
qed


lemma w1_at_rank_Inr:
  assumes "fst (w1_at_rank emd2 Ytrain Ytest Vh r st) = Inr w"
  shows "\<exists>P Yproj M a b. projection Vh r = Inr P \<and> matmul Ytrain (T P) = Inr Yproj \<and>
     ot_dist Yproj Ytest = Inr M \<and> uniform (nrows Yproj) = Inr a \<and> uniform (nrows Ytest) = Inr b \<and>
     fst (emd2 a b M st) = Inr w"
  using assms by (auto simp: w1_at_rank_def Let_def seq_Inr_iff)

lemma wds_Inr:
  assumes "fst (wasserstein_dim_select svds emd2 Y split rmax st) = Inr ws"
  shows "\<exists>U s Vh st1 Vh'.
     svds (slice_rows 0 (train_size Y split) Y) rmax st = (Inr (U, s, Vh), st1) \<and>
     take_rows Vh (rev (argsort s)) = Inr Vh' \<and>
     fst (ws_loop emd2 (slice_rows 0 (train_size Y split) Y)
            (slice_rows (train_size Y split) (int (nrows Y)) Y) Vh' []
            [1..min (train_size Y split) rmax] st1) = Inr ws"
  using assms
  by (auto simp: wasserstein_dim_select_def Let_def seq_Inr_iff split: prod.splits)

lemma ws_loop_entries:
  assumes "fst (ws_loop emd2 Ytrain Ytest Vh acc rs st) = Inr ws"
  shows "\<exists>new. ws = acc @ new \<and>
     list_all2 (\<lambda>r w. \<exists>st'. fst (w1_at_rank emd2 Ytrain Ytest Vh r st') = Inr w) rs new"
  using assms
proof (induction rs arbitrary: acc st)
  case Nil
  then show ?case by simp
next
  case (Cons r rs)
  from Cons.prems obtain W1 st' where
    w: "w1_at_rank emd2 Ytrain Ytest Vh r st = (Inr W1, st')" and
    rest: "fst (ws_loop emd2 Ytrain Ytest Vh (acc @ [W1]) rs st') = Inr ws"
    by (auto simp: seq_Inr_iff)
  from Cons.IH [OF rest] obtain new where
    new: "ws = (acc @ [W1]) @ new"
      "list_all2 (\<lambda>r w. \<exists>st'. fst (w1_at_rank emd2 Ytrain Ytest Vh r st') = Inr w) rs new"
    by blast
  from w have "\<exists>st'. fst (w1_at_rank emd2 Ytrain Ytest Vh r st') = Inr W1"
    by (metis fst_conv)
  with new have "ws = acc @ (W1 # new) \<and>
     list_all2 (\<lambda>r w. \<exists>st'. fst (w1_at_rank emd2 Ytrain Ytest Vh r st') = Inr w) (r # rs) (W1 # new)"
    by simp
  then show ?case by blast
qed

text \<open>
  Claim C1. On an input with \<open>split \<ge> 0\<close> and \<open>rmax \<ge> 0\<close> (every valid input has
  \<open>0 < split < 1\<close> and \<open>rmax \<ge> 1\<close>), whatever the two providers are, a call of
  \<open>wasserstein_dim_select\<close> that returns a list \<open>ws\<close> returns one of length exactly
  \<open>rtry = min (round (n * split)) rmax\<close>: the loop appends one entry per candidate rank
  \<open>r = 1..rtry\<close>, in this order, each the answer of the transport provider in the turn
  of its rank.
\<close>

theorem wds_length_rtry:
  assumes "0 \<le> split" and "0 \<le> rmax"
    and "fst (wasserstein_dim_select svds emd2 Y split rmax st) = Inr ws"
  shows "int (length ws) = min (py_round (real (nrows Y) * split)) rmax \<and>
     (\<exists>Vh'. list_all2 (\<lambda>r w. \<exists>st'. fst (w1_at_rank emd2 (slice_rows 0 (train_size Y split) Y)
          (slice_rows (train_size Y split) (int (nrows Y)) Y) Vh' r st') = Inr w)
        [1..min (py_round (real (nrows Y) * split)) rmax] ws)"
proof -
  have "0 \<le> train_size Y split"
    using assms(1) by (rule train_size_nonneg)
  with assms(2) wds_length [OF assms(3)]
  have len: "int (length ws) = min (py_round (real (nrows Y) * split)) rmax"
    by (simp add: train_size_def)
  from wds_Inr [OF assms(3)] obtain Vh' st1 where
    "fst (ws_loop emd2 (slice_rows 0 (train_size Y split) Y)
            (slice_rows (train_size Y split) (int (nrows Y)) Y) Vh' []
            [1..min (train_size Y split) rmax] st1) = Inr ws"
    by blast
  from ws_loop_entries [OF this]
  have "\<exists>Vh'. list_all2 (\<lambda>r w. \<exists>st'. fst (w1_at_rank emd2 (slice_rows 0 (train_size Y split) Y)
          (slice_rows (train_size Y split) (int (nrows Y)) Y) Vh' r st') = Inr w)
        [1..min (py_round (real (nrows Y) * split)) rmax] ws"
    by (auto simp: train_size_def)
  with len show ?thesis by simp
qed

theorem wds_length_rtry_witness:
  "(0::real) \<le> 3/4 \<and> (0::int) \<le> 2 \<and>
   fst (wasserstein_dim_select (svds_checked example_core) example_emd2 Y0 (3/4) 2 0) = Inr [2/3, 1] \<and>
   int (length [2/3, 1::real]) = min (py_round (real (nrows Y0) * (3/4))) 2"
proof -
  have run: "fst (wasserstein_dim_select (svds_checked example_core) example_emd2 Y0 (3/4) 2 0)
      = Inr [2/3, 1]"
    by (simp add: example_run)
  have "int (length [2/3, 1::real]) = min (py_round (real (nrows Y0) * (3/4))) 2"
    using run by (intro wds_length_rtry [THEN conjunct1]) simp_all
  with run show ?thesis by simp
qed

text \<open>
  Claim C8 says that on every call where the truncated-SVD provider succeeds,
  \<open>train > rmax\<close>, \<open>rtry = rmax\<close> and the returned list has length \<open>rmax\<close>. With
  \<open>split = -1/4\<close> on four rows and \<open>rmax = 2\<close> the provider succeeds on the three rows
  of \<open>Y[:-1,:]\<close>, yet \<open>train = -1\<close>, \<open>rtry = -1\<close> and the returned list is empty.
\<close>

theorem wds_rank_binding_counterexample:
  "fst (svds_checked example_core (slice_rows 0 (train_size Y0 (-1/4)) Y0) 2 0) =
     Inr (\<lparr>ncols = 2, rows = [[0, 1], [1, 0], [0, 0]]\<rparr>, [1, 2],
          \<lparr>ncols = 3, rows = [[0, 1, 0], [1, 0, 0]]\<rparr>) \<and>
   train_size Y0 (-1/4) = -1 \<and> \<not> 2 < train_size Y0 (-1/4) \<and>
   min (train_size Y0 (-1/4)) 2 = -1 \<and>
   fst (wasserstein_dim_select (svds_checked example_core) example_emd2 Y0 (-1/4) 2 0) = Inr [] \<and>
   int (length ([] :: real list)) \<noteq> 2"
proof -
  have train: "train_size Y0 (-1/4) = -1"
    by (rule example_negative_split)
  have "fst (svds_checked example_core A0 2 0) =
     Inr (\<lparr>ncols = 2, rows = [[0, 1], [1, 0], [0, 0]]\<rparr>, [1, 2],
          \<lparr>ncols = 3, rows = [[0, 1, 0], [1, 0, 0]]\<rparr>)"
    by (simp add: eval_defs)
  then have svd: "fst (svds_checked example_core (slice_rows 0 (train_size Y0 (-1/4)) Y0) 2 0) =
     Inr (\<lparr>ncols = 2, rows = [[0, 1], [1, 0], [0, 0]]\<rparr>, [1, 2],
          \<lparr>ncols = 3, rows = [[0, 1, 0], [1, 0, 0]]\<rparr>)"
    by (simp only: train example_negative_split(2))
  have run: "fst (wasserstein_dim_select (svds_checked example_core) example_emd2 Y0 (-1/4) 2 0) = Inr []"
    by (simp only: example_negative_split(3) fst_conv)
  from svd run show ?thesis
    by (simp only: train) simp
qed

text \<open>
  Claim C8, amended. On a call with \<open>split \<ge> 0\<close> (every valid input has
  \<open>0 < split < 1\<close>), when the truncated-SVD call of \<open>wasserstein_dim_select\<close> succeeds,
  its rank check has passed, so \<open>rmax < min(train, p)\<close>; hence \<open>train > rmax\<close>,
  \<open>rtry = min(train, rmax) = rmax\<close>, and a returned list has length exactly \<open>rmax\<close>: the
  \<open>train\<close> term of the minimum never binds on such a call.
\<close>

theorem wds_rank_binding:
  assumes "0 \<le> split"
    and "fst (svds_checked core (slice_rows 0 (train_size Y split) Y) rmax st) = Inr usv"
  shows "rmax < train_size Y split \<and> rmax < int (ncols Y) \<and>
         min (train_size Y split) rmax = rmax \<and>
         (\<forall>ws. fst (wasserstein_dim_select (svds_checked core) emd2 Y split rmax st) = Inr ws
            \<longrightarrow> int (length ws) = rmax)"
proof -
  let ?train = "train_size Y split"
  have tr: "0 \<le> ?train"
    using assms(1) by (rule train_size_nonneg)
  have "rmax < int (nrows (slice_rows 0 ?train Y))"
    using assms(2) by (rule svds_checked_Inr)
  also have "\<dots> \<le> ?train"
    using tr by (simp add: nrows_slice_rows clip_nonneg)
  finally have lt: "rmax < ?train" .
  have p: "rmax < int (ncols Y)"
    using svds_checked_Inr(3) [OF assms(2)] by simp
  have pos: "1 \<le> rmax"
    using assms(2) by (rule svds_checked_Inr)
  have "int (length ws) = rmax"
    if "fst (wasserstein_dim_select (svds_checked core) emd2 Y split rmax st) = Inr ws" for ws
    using wds_length [OF that] lt pos by simp
  with lt p show ?thesis by simp
qed

theorem wds_rank_binding_witness:
  "(0::real) \<le> 3/4 \<and>
   fst (svds_checked example_core (slice_rows 0 (train_size Y0 (3/4)) Y0) 2 0) =
     Inr (\<lparr>ncols = 2, rows = [[0, 1], [1, 0], [0, 0]]\<rparr>, [1, 2],
          \<lparr>ncols = 3, rows = [[0, 1, 0], [1, 0, 0]]\<rparr>) \<and>
   2 < train_size Y0 (3/4) \<and> min (train_size Y0 (3/4)) 2 = 2 \<and>
   fst (wasserstein_dim_select (svds_checked example_core) example_emd2 Y0 (3/4) 2 0) = Inr [2/3, 1] \<and>
   int (length [2/3, 1::real]) = 2"
proof -
  have svd: "fst (svds_checked example_core (slice_rows 0 (train_size Y0 (3/4)) Y0) 2 0) =
     Inr (\<lparr>ncols = 2, rows = [[0, 1], [1, 0], [0, 0]]\<rparr>, [1, 2],
          \<lparr>ncols = 3, rows = [[0, 1, 0], [1, 0, 0]]\<rparr>)"
    by (simp add: eval_defs)
  have run: "fst (wasserstein_dim_select (svds_checked example_core) example_emd2 Y0 (3/4) 2 0)
      = Inr [2/3, 1]"
    by (simp add: example_run)
  from wds_rank_binding [OF _ svd, of example_emd2] run svd
  show ?thesis by simp
qed

section \<open>Determinism\<close>

lemma deterministic_pure_step: "deterministic (pure_step r)"
  by (simp add: deterministic_def)

lemma deterministic_ret: "deterministic (ret x)"
  by (simp add: deterministic_def)

lemma deterministic_seq:
  assumes m: "deterministic m" and f: "\<And>x. deterministic (f x)"
  shows "deterministic (seq m f)"
  unfolding deterministic_def
proof (intro allI)
  fix st st'
  have eq: "fst (m st) = fst (m st')"
    using m by (simp add: deterministic_def)
  show "fst (seq m f st) = fst (seq m f st')"
  proof (cases "m st")
    case (Pair res st1)
    obtain res' st1' where m': "m st' = (res', st1')"
      by (cases "m st'")
    from eq Pair m' have same: "res' = res" by simp
    show ?thesis
    proof (cases res)
      case (Inl e)
      with Pair m' same show ?thesis by (simp add: seq_def)
    next
      case (Inr x)
      have "fst (f x st1) = fst (f x st1')"
        using f [of x] by (simp add: deterministic_def)
      with Inr Pair m' same show ?thesis by (simp add: seq_def)
    qed
  qed
qed

lemma deterministic_w1_at_rank:
  assumes "\<And>a b M. deterministic (emd2 a b M)"
  shows "deterministic (w1_at_rank emd2 Ytrain Ytest Vh r)"
  unfolding w1_at_rank_def Let_def
  by (intro deterministic_seq deterministic_pure_step assms)

lemma deterministic_ws_loop:
  assumes "\<And>a b M. deterministic (emd2 a b M)"
  shows "deterministic (ws_loop emd2 Ytrain Ytest Vh acc rs)"
proof (induction rs arbitrary: acc)
  case Nil
  show ?case by (simp only: ws_loop.simps deterministic_ret)
next
  case (Cons r rs)
  show ?case
    by (simp only: ws_loop.simps) (intro deterministic_seq deterministic_w1_at_rank assms Cons.IH)
qed

text \<open>
  Claim C7. \<open>wasserstein_dim_select\<close> is deterministic: when the SVD provider and the
  transport provider are deterministic (their outcome does not depend on their hidden
  state), two calls with the same \<open>(Y, split, rmax)\<close> have the same outcome, from
  whatever states the providers start.
\<close>

theorem wds_deterministic:
  assumes svds: "\<And>A k. deterministic (svds A k)"
    and emd2: "\<And>a b M. deterministic (emd2 a b M)"
  shows "fst (wasserstein_dim_select svds emd2 Y split rmax st) =
         fst (wasserstein_dim_select svds emd2 Y split rmax st')"
proof -
  have "deterministic (wasserstein_dim_select svds emd2 Y split rmax)"
    unfolding wasserstein_dim_select_def Let_def split_def
    by (intro deterministic_seq deterministic_pure_step deterministic_ws_loop svds emd2)
  then show ?thesis
    by (simp add: deterministic_def)
qed


text \<open>With a provider that is not deterministic the two calls may differ.\<close>

lemma noisy_run:
  "fst (wasserstein_dim_select (svds_checked example_core) noisy_emd2 Y0 (3/4) 2 0) = Inr [1, 2]"
  "fst (wasserstein_dim_select (svds_checked example_core) noisy_emd2 Y0 (3/4) 2 5) = Inr [6, 7]"
  by (simp_all add: eval_defs noisy_emd2_def)

lemma example_deterministic:
  "deterministic (svds_checked example_core A k)" "deterministic (example_emd2 a b M)"
  by (simp_all add: deterministic_def svds_checked_def example_core_def example_emd2_def)

theorem wds_deterministic_witness:
  "(\<forall>A k. deterministic (svds_checked example_core A k)) \<and>
   (\<forall>a b M. deterministic (example_emd2 a b M)) \<and>
   fst (wasserstein_dim_select (svds_checked example_core) example_emd2 Y0 (3/4) 2 0) =
   fst (wasserstein_dim_select (svds_checked example_core) example_emd2 Y0 (3/4) 2 7)"
  using wds_deterministic [of "svds_checked example_core" example_emd2 Y0 "3/4" 2 0 7]
  by (simp add: example_deterministic)

section \<open>One decomposition, re-sorted\<close>









lemma argsort_perm: "distinct (argsort s)" "set (argsort s) = {..<length s}"
  by (auto simp: argsort_def)









section \<open>Nonnegative distances\<close>

lemma euclidean_nonneg: "0 \<le> euclidean x y"
proof -
  have "0 \<le> sum_list (map2 (\<lambda>a b. (a - b)\<^sup>2) x y)"
    by (rule sum_list_nonneg) auto
  then show ?thesis
    by (simp add: euclidean_def)
qed

lemma ot_dist_nonneg: "ot_dist X Y = Inr M \<Longrightarrow> nonneg_matrix M"
  by (auto simp: ot_dist_def nonneg_matrix_def list_all_iff euclidean_nonneg split: if_splits)

lemma uniform_weights: "uniform n = Inr a \<Longrightarrow> uniform_weights a"
  by (auto simp: uniform_def uniform_weights_def split: if_splits)

lemma w1_at_rank_nonneg:
  assumes "emd2_nonneg emd2" and "fst (w1_at_rank emd2 Ytrain Ytest Vh r st) = Inr w"
  shows "0 \<le> w"
proof -
  from w1_at_rank_Inr [OF assms(2)] obtain Yproj M a b where
    "ot_dist Yproj Ytest = Inr M" "uniform (nrows Yproj) = Inr a" "uniform (nrows Ytest) = Inr b"
    "fst (emd2 a b M st) = Inr w"
    by blast
  then have "uniform_weights a \<and> uniform_weights b \<and> nonneg_matrix M \<and> fst (emd2 a b M st) = Inr w"
    by (simp add: ot_dist_nonneg uniform_weights)
  with assms(1) show ?thesis
    unfolding emd2_nonneg_def by blast
qed

lemma ws_loop_nonneg:
  assumes "emd2_nonneg emd2"
  shows "fst (ws_loop emd2 Ytrain Ytest Vh acc rs st) = Inr ws \<Longrightarrow> \<forall>w\<in>set acc. 0 \<le> w
    \<Longrightarrow> \<forall>w\<in>set ws. 0 \<le> w"
proof (induction rs arbitrary: acc st)
  case Nil
  then show ?case by auto
next
  case (Cons r rs)
  from Cons.prems(1) obtain W1 st' where
    w: "w1_at_rank emd2 Ytrain Ytest Vh r st = (Inr W1, st')" and
    rest: "fst (ws_loop emd2 Ytrain Ytest Vh (acc @ [W1]) rs st') = Inr ws"
    by (auto simp: seq_Inr_iff)
  from w have "fst (w1_at_rank emd2 Ytrain Ytest Vh r st) = Inr W1" by simp
  then have "0 \<le> W1"
    by (rule w1_at_rank_nonneg [OF assms])
  with Cons.prems(2) have "\<forall>w\<in>set (acc @ [W1]). 0 \<le> w" by simp
  with rest show ?case by (rule Cons.IH)
qed

text \<open>
  Claim C6. If the transport provider returns a nonnegative value whenever it is given
  uniform weights and a nonnegative cost matrix, every entry of a list returned by
  \<open>wasserstein_dim_select\<close> is nonnegative: each entry is an answer of the provider to
  uniform weights and a matrix of Euclidean distances.
\<close>

theorem wds_nonneg:
  assumes "emd2_nonneg emd2"
    and "fst (wasserstein_dim_select svds emd2 Y split rmax st) = Inr ws"
  shows "\<forall>w\<in>set ws. 0 \<le> w"
proof -
  from wds_Inr [OF assms(2)] obtain Ytrain Ytest Vh' rs st1 where
    "fst (ws_loop emd2 Ytrain Ytest Vh' [] rs st1) = Inr ws"
    by blast
  then show ?thesis
    by (rule ws_loop_nonneg [OF assms(1)]) simp
qed

lemma example_emd2_nonneg: "emd2_nonneg example_emd2"
  unfolding emd2_nonneg_def
proof (intro allI impI)
  fix a b M and st :: nat and w
  assume h: "uniform_weights a \<and> uniform_weights b \<and> nonneg_matrix M \<and>
    fst (example_emd2 a b M st) = Inr w"
  then have w: "w = sum_list (map2 (\<lambda>w r. w * sum_list r) a (rows M))"
    by (auto simp: example_emd2_def split: if_splits)
  have a: "\<forall>x\<in>set a. 0 \<le> x"
  proof
    fix x assume "x \<in> set a"
    moreover have "a = replicate (length a) (1 / real (length a))"
      using h by (simp add: uniform_weights_def)
    ultimately have "x \<in> set (replicate (length a) (1 / real (length a)))" by simp
    then show "0 \<le> x" by auto
  qed
  have M: "\<forall>r\<in>set (rows M). 0 \<le> sum_list r"
    using h by (auto simp: nonneg_matrix_def list_all_iff intro: sum_list_nonneg)
  have "0 \<le> sum_list (map2 (\<lambda>w r. w * sum_list r) a (rows M))"
  proof (rule sum_list_nonneg)
    fix x assume "x \<in> set (map2 (\<lambda>w r. w * sum_list r) a (rows M))"
    then obtain u r where "x = u * sum_list r" "u \<in> set a" "r \<in> set (rows M)"
      by (auto dest: set_zip_leftD set_zip_rightD)
    with a M show "0 \<le> x" by simp
  qed
  with w show "0 \<le> w" by simp
qed

theorem wds_nonneg_witness:
  "emd2_nonneg example_emd2 \<and>
   fst (wasserstein_dim_select (svds_checked example_core) example_emd2 Y0 (3/4) 2 0) = Inr [2/3, 1] \<and>
   (0::real) \<le> 2/3 \<and> (0::real) \<le> 1"
proof -
  have run: "fst (wasserstein_dim_select (svds_checked example_core) example_emd2 Y0 (3/4) 2 0)
      = Inr [2/3, 1]"
    by (simp add: example_run)
  from wds_nonneg [OF example_emd2_nonneg run] example_emd2_nonneg run
  show ?thesis by simp
qed


section \<open>The projection of a candidate rank\<close>

lemma orthonormal_rowsD:
  "orthonormal_rows V \<Longrightarrow> i < nrows V \<Longrightarrow> j < nrows V \<Longrightarrow>
   dot (rows V ! i) (rows V ! j) = (if i = j then 1 else 0)"
  by (simp add: orthonormal_rows_def list_all_iff)

lemma slice_0: "slice 0 hi xs = take (clip (length xs) hi) xs"
  by (simp add: slice_def)

lemma slice_cols_T: "slice_cols 0 r (T Vh) = T (slice_rows 0 r Vh)"
  by (simp add: slice_cols_def slice_rows_def T_def slice_0 take_map nrows_def clip_le min_absorb2)

lemma wf_slice_rows: "wf_matrix A \<Longrightarrow> wf_matrix (slice_rows lo hi A)"
  by (auto simp: wf_matrix_def slice_rows_def slice_def list_all_iff dest: in_set_takeD in_set_dropD)

lemma rows_slice_rows_0: "i < nrows (slice_rows 0 hi A) \<Longrightarrow> rows (slice_rows 0 hi A) ! i = rows A ! i"
  by (simp add: slice_rows_def slice_0 nrows_def)

lemma nrows_slice_rows_0_le: "nrows (slice_rows 0 hi A) \<le> nrows A"
  by (simp add: nrows_slice_rows clip_le)

lemma orthonormal_slice_rows:
  assumes "orthonormal_rows V"
  shows "orthonormal_rows (slice_rows 0 hi V)"
proof -
  have "dot (rows (slice_rows 0 hi V) ! i) (rows (slice_rows 0 hi V) ! j) = (if i = j then 1 else 0)"
    if "i < nrows (slice_rows 0 hi V)" "j < nrows (slice_rows 0 hi V)" for i j
  proof -
    from that nrows_slice_rows_0_le [of hi V] have "i < nrows V" "j < nrows V"
      by simp_all
    with that assms show ?thesis
      by (simp add: rows_slice_rows_0 orthonormal_rowsD)
  qed
  then show ?thesis
    by (simp add: orthonormal_rows_def list_all_iff)
qed

lemma orthonormal_sum:
  assumes "wf_matrix V" and "orthonormal_rows V" and "k < nrows V" and "k' < nrows V"
  shows "(\<Sum>l<ncols V. el V k l * el V k' l) = (if k = k' then 1 else 0)"
proof -
  have "dot (rows V ! k) (rows V ! k') = (\<Sum>l<length (rows V ! k). rows V ! k ! l * rows V ! k' ! l)"
    using assms by (intro dot_sum) (simp add: wf_matrix_nth)
  then show ?thesis
    using assms by (simp add: orthonormal_rowsD wf_matrix_nth el_def)
qed

lemma gram_collapse:
  fixes v :: "nat \<Rightarrow> nat \<Rightarrow> real"
  assumes "\<And>k k'. k < m \<Longrightarrow> k' < m \<Longrightarrow> (\<Sum>l<p. v k l * v k' l) = (if k = k' then 1 else 0)"
  shows "(\<Sum>l<p. (\<Sum>k<m. v k i * v k l) * (\<Sum>k'<m. v k' l * v k' j)) = (\<Sum>k<m. v k i * v k j)"
proof -
  have "(\<Sum>l<p. (\<Sum>k<m. v k i * v k l) * (\<Sum>k'<m. v k' l * v k' j)) =
        (\<Sum>l<p. \<Sum>k<m. \<Sum>k'<m. (v k i * v k' j) * (v k l * v k' l))"
    by (simp add: sum_product mult_ac)
  also have "\<dots> = (\<Sum>k<m. \<Sum>l<p. \<Sum>k'<m. (v k i * v k' j) * (v k l * v k' l))"
    by (rule sum.swap)
  also have "\<dots> = (\<Sum>k<m. \<Sum>k'<m. \<Sum>l<p. (v k i * v k' j) * (v k l * v k' l))"
    by (intro sum.cong refl sum.swap)
  also have "\<dots> = (\<Sum>k<m. \<Sum>k'<m. (v k i * v k' j) * (\<Sum>l<p. v k l * v k' l))"
    by (simp add: sum_distrib_left)
  also have "\<dots> = (\<Sum>k<m. \<Sum>k'<m. (v k i * v k' j) * (if k = k' then 1 else 0))"
    using assms by (intro sum.cong refl) simp_all
  also have "\<dots> = (\<Sum>k<m. \<Sum>k'<m. if k = k' then v k i * v k j else 0)"
    by (intro sum.cong refl) auto
  also have "\<dots> = (\<Sum>k<m. v k i * v k j)"
    by (intro sum.cong refl) simp
  finally show ?thesis .
qed


lemma projection_Inr:
  "\<exists>P. projection Vh r = Inr P \<and> matmul (T (slice_rows 0 r Vh)) (slice_rows 0 r Vh) = Inr P"
  by (simp add: projection_def slice_cols_T matmul_def)

lemma projection_el:
  assumes P: "projection Vh r = Inr P" and wf: "wf_matrix Vh" and i: "i < ncols Vh" and j: "j < ncols Vh"
  shows "el P i j = (\<Sum>k<nrows (slice_rows 0 r Vh). el (slice_rows 0 r Vh) k i * el (slice_rows 0 r Vh) k j)"
proof -
  let ?V = "slice_rows 0 r Vh"
  have mm: "matmul (T ?V) ?V = Inr P"
    using P projection_Inr [of Vh r] by auto
  have "el P i j = (\<Sum>k<ncols (T ?V). el (T ?V) i k * el ?V k j)"
    using mm wf i j by (intro matmul_el) (simp_all add: wf_slice_rows)
  also have "\<dots> = (\<Sum>k<nrows ?V. el ?V k i * el ?V k j)"
    using i by (intro sum.cong) (simp_all add: el_T)
  finally show ?thesis .
qed

text \<open>
  Claim C5. When the rows of \<open>Vh\<close> are orthonormal, for every rank \<open>r\<close> the matrix
  \<open>P = Vh.T[:,:r] @ Vh[:r,:]\<close> of the loop is a \<open>p \<times> p\<close> array with \<open>P = P\<^sup>T\<close> and
  \<open>P @ P = P\<close>; hence \<open>Ytrain @ P.T\<close> and \<open>Ytrain @ P\<close> are the same array, of the shape
  of \<open>Ytrain\<close>: the projected points stay in the \<open>p\<close>-dimensional space.
\<close>

theorem projection_symmetric_idempotent:
  assumes wf: "wf_matrix Vh" and on: "orthonormal_rows Vh"
  shows "\<exists>P. projection Vh r = Inr P \<and> wf_matrix P \<and> nrows P = ncols Vh \<and> ncols P = ncols Vh \<and>
           T P = P \<and> matmul P P = Inr P \<and>
           (ncols Ytrain = ncols Vh \<longrightarrow>
              (\<exists>Yproj. matmul Ytrain (T P) = Inr Yproj \<and> matmul Ytrain P = Inr Yproj \<and>
                 nrows Yproj = nrows Ytrain \<and> ncols Yproj = ncols Ytrain))"
proof -
  let ?V = "slice_rows 0 r Vh"
  let ?p = "ncols Vh"
  let ?m = "nrows ?V"
  obtain P where P: "projection Vh r = Inr P" and mm: "matmul (T ?V) ?V = Inr P"
    using projection_Inr [of Vh r] by blast
  have wfV: "wf_matrix ?V" and onV: "orthonormal_rows ?V"
    using wf on by (simp_all add: wf_slice_rows orthonormal_slice_rows)
  have shape: "ncols P = ?p" "nrows P = ?p" and wfP: "wf_matrix P"
    using matmul_shape [OF mm] by simp_all
  have entry: "el P i j = (\<Sum>k<?m. el ?V k i * el ?V k j)" if "i < ?p" "j < ?p" for i j
    using P wf that by (rule projection_el)
  have sym: "T P = P"
  proof (rule matrix_eqI)
    fix i j assume "i < nrows (T P)" "j < ncols (T P)"
    then have ij: "i < ?p" "j < ?p"
      using shape by simp_all
    then have "el (T P) i j = el P j i"
      using shape by (simp add: el_T)
    also have "\<dots> = el P i j"
      using ij by (simp add: entry mult.commute)
    finally show "el (T P) i j = el P i j" .
  qed (simp_all add: shape wfP)
  obtain Q where Q: "matmul P P = Inr Q"
    using shape by (auto simp: matmul_def)
  have shapeQ: "ncols Q = ?p" "nrows Q = ?p" and wfQ: "wf_matrix Q"
    using matmul_shape [OF Q] shape by simp_all
  have "Q = P"
  proof (rule matrix_eqI)
    fix i j assume "i < nrows Q" "j < ncols Q"
    then have ij: "i < ?p" "j < ?p"
      using shapeQ by simp_all
    have "el Q i j = (\<Sum>l<ncols P. el P i l * el P l j)"
      using Q wfP ij shape by (intro matmul_el) simp_all
    also have "\<dots> = (\<Sum>l<?p. (\<Sum>k<?m. el ?V k i * el ?V k l) * (\<Sum>k'<?m. el ?V k' l * el ?V k' j))"
      using ij shape by (intro sum.cong) (simp_all add: entry)
    also have "\<dots> = (\<Sum>k<?m. el ?V k i * el ?V k j)"
    proof (rule gram_collapse)
      fix k k' assume "k < ?m" "k' < ?m"
      with orthonormal_sum [OF wfV onV, of k k']
      show "(\<Sum>l<?p. el ?V k l * el ?V k' l) = (if k = k' then 1 else 0)"
        by simp
    qed
    also have "\<dots> = el P i j"
      using ij by (simp add: entry)
    finally show "el Q i j = el P i j" .
  qed (simp_all add: shape shapeQ wfP wfQ)
  with Q have idem: "matmul P P = Inr P" by simp
  have proj: "\<exists>Yproj. matmul Ytrain (T P) = Inr Yproj \<and> matmul Ytrain P = Inr Yproj \<and>
      nrows Yproj = nrows Ytrain \<and> ncols Yproj = ncols Ytrain"
    if h: "ncols Ytrain = ncols Vh"
  proof -
    obtain Yproj where Y: "matmul Ytrain P = Inr Yproj"
      using h shape by (auto simp: matmul_def)
    from matmul_shape [OF Y] shape h sym Y show ?thesis
      by simp
  qed
  from P wfP shape sym idem proj show ?thesis
    by blast
qed

theorem projection_symmetric_idempotent_witness:
  "wf_matrix V0 \<and> orthonormal_rows V0 \<and> projection V0 1 = Inr P0 \<and> T P0 = P0 \<and>
   matmul P0 P0 = Inr P0 \<and> ncols A0 = ncols V0 \<and>
   matmul A0 (T P0) = Inr \<lparr>ncols = 3, rows = [[18/25, 24/25, 0], [12/25, 16/25, 0], [0, 0, 0]]\<rparr> \<and>
   matmul A0 P0 = Inr \<lparr>ncols = 3, rows = [[18/25, 24/25, 0], [12/25, 16/25, 0], [0, 0, 0]]\<rparr>"
proof -
  have wf: "wf_matrix V0" and on: "orthonormal_rows V0"
    by (simp_all add: V0_def orthonormal_rows_def eval_defs)
  have P: "projection V0 1 = Inr P0"
    by (simp add: V0_def P0_def eval_defs)
  have c: "ncols A0 = ncols V0"
    by (simp add: V0_def A0_def)
  have Y: "matmul A0 P0 = Inr \<lparr>ncols = 3, rows = [[18/25, 24/25, 0], [12/25, 16/25, 0], [0, 0, 0]]\<rparr>"
    by (simp add: P0_def eval_defs)
  from projection_symmetric_idempotent [OF wf on, of 1 A0] P c Y wf on
  show ?thesis by auto
qed


section \<open>Invalid inputs\<close>

lemma projection_shape:
  assumes "projection Vh r = Inr P"
  shows "ncols P = ncols Vh" and "nrows P = ncols Vh"
proof -
  have mm: "matmul (T (slice_rows 0 r Vh)) (slice_rows 0 r Vh) = Inr P"
    using assms projection_Inr [of Vh r] by auto
  from matmul_shape(1) [OF mm] show "ncols P = ncols Vh"
    by simp
  from matmul_shape(2) [OF mm] show "nrows P = ncols Vh"
    by simp
qed

text \<open>One turn of the loop on arrays of matching widths: division by zero when there is
  no test row, and otherwise whatever the transport provider answers.\<close>

lemma w1_at_rank_cases:
  assumes "ncols Vh = ncols Ytrain" and "ncols Ytest = ncols Ytrain" and "0 < nrows Ytrain"
  shows "(nrows Ytest = 0 \<longrightarrow> w1_at_rank emd2 Ytrain Ytest Vh r st = (Inl ZeroDivisionError, st)) \<and>
         (0 < nrows Ytest \<longrightarrow> (\<exists>a b M. w1_at_rank emd2 Ytrain Ytest Vh r st = emd2 a b M st))"
proof -
  obtain P where P: "projection Vh r = Inr P"
    using projection_Inr [of Vh r] by blast
  have shP: "ncols P = ncols Ytrain" "nrows P = ncols Ytrain"
    using projection_shape [OF P] assms(1) by simp_all
  obtain Yproj where Y: "matmul Ytrain (T P) = Inr Yproj"
    using shP by (auto simp: matmul_def)
  have shY: "ncols Yproj = ncols Ytrain" "nrows Yproj = nrows Ytrain"
    using matmul_shape(1,2) [OF Y] shP by simp_all
  obtain M where M: "ot_dist Yproj Ytest = Inr M"
    using shY assms(2) by (auto simp: ot_dist_def)
  obtain a where a: "uniform (nrows Yproj) = Inr a"
    using shY assms(3) by (auto simp: uniform_def)
  have zero: "w1_at_rank emd2 Ytrain Ytest Vh r st = (Inl ZeroDivisionError, st)"
    if "nrows Ytest = 0"
    using that P Y M a by (simp add: w1_at_rank_def Let_def seq_def uniform_def)
  have pos: "\<exists>a b M. w1_at_rank emd2 Ytrain Ytest Vh r st = emd2 a b M st"
    if h: "0 < nrows Ytest"
  proof -
    obtain b where "uniform (nrows Ytest) = Inr b"
      using h by (auto simp: uniform_def)
    with P Y M a have "w1_at_rank emd2 Ytrain Ytest Vh r st = emd2 a b M st"
      by (simp add: w1_at_rank_def Let_def seq_def)
    then show ?thesis by blast
  qed
  from zero pos show ?thesis by blast
qed

lemma emd2_contractD:
  assumes "emd2_contract emd2" and "fst (emd2 a b M st) = Inl e"
  shows "e = ComputationError"
  using assms(1) [unfolded emd2_contract_def, rule_format, of a b M st] assms(2)
  by simp

lemma svds_contractD:
  assumes "svds_contract core"
  shows "fst (core A k st) = Inl e \<Longrightarrow> e = ComputationError"
    and "fst (core A k st) = Inr usv \<Longrightarrow> svd_shape_ok A usv"
  using assms [unfolded svds_contract_def, rule_format, of A k st]
  by simp_all

lemma ws_loop_no_input_error:
  assumes "emd2_contract emd2" and "ncols Vh = ncols Ytrain" and "ncols Ytest = ncols Ytrain"
    and "0 < nrows Ytrain" and "0 < nrows Ytest"
  shows "fst (ws_loop emd2 Ytrain Ytest Vh acc rs st) = Inl ComputationError \<or>
         (\<exists>ws. fst (ws_loop emd2 Ytrain Ytest Vh acc rs st) = Inr ws)"
proof (induction rs arbitrary: acc st)
  case Nil
  show ?case by simp
next
  case (Cons r rs)
  from w1_at_rank_cases [OF assms(2,3,4), of emd2 r st] assms(5)
  obtain a b M where w: "w1_at_rank emd2 Ytrain Ytest Vh r st = emd2 a b M st"
    by auto
  obtain res st' where e: "emd2 a b M st = (res, st')"
    by (cases "emd2 a b M st")
  show ?case
  proof (cases res)
    case (Inl err)
    with e have "fst (emd2 a b M st) = Inl err" by simp
    with assms(1) have "err = ComputationError"
      by (rule emd2_contractD)
    with Inl e w show ?thesis
      by (simp add: seq_def)
  next
    case (Inr W1)
    with e w have "ws_loop emd2 Ytrain Ytest Vh acc (r # rs) st =
        ws_loop emd2 Ytrain Ytest Vh (acc @ [W1]) rs st'"
      by (simp add: seq_def)
    with Cons.IH [of "acc @ [W1]" st'] show ?thesis by simp
  qed
qed



lemma take_rows_resort:
  assumes "nrows Vh = length s"
  shows "\<exists>Vh'. take_rows Vh (rev (argsort s)) = Inr Vh' \<and> ncols Vh' = ncols Vh"
  using assms by (simp add: take_rows_def list_all_iff argsort_perm)

lemma nrows_test_rows:
  "0 \<le> train \<Longrightarrow> nrows (slice_rows train (int (nrows Y)) Y) = nrows Y - nat train"
  by (simp add: nrows_slice_rows clip_nonneg)

lemma nrows_train_rows:
  "0 \<le> train \<Longrightarrow> nrows (slice_rows 0 train Y) = min (nat train) (nrows Y)"
  by (simp add: nrows_slice_rows clip_nonneg)

lemma wds_unfold:
  "wasserstein_dim_select svds emd2 Y split rmax =
     seq (svds (slice_rows 0 (train_size Y split) Y) rmax) (\<lambda>(U, s, Vh).
       seq (pure_step (take_rows Vh (rev (argsort s)))) (\<lambda>Vh'.
         ws_loop emd2 (slice_rows 0 (train_size Y split) Y)
           (slice_rows (train_size Y split) (int (nrows Y)) Y) Vh' []
           [1..min (train_size Y split) rmax]))"
  by (simp add: wasserstein_dim_select_def Let_def)

text \<open>The rank check fails: the call fails at once, before any numerical work.\<close>

lemma wds_rank_rejected:
  assumes "rmax < 1 \<or> int (min_shape (slice_rows 0 (train_size Y split) Y)) - 1 < rmax"
  shows "wasserstein_dim_select (svds_checked core) emd2 Y split rmax st = (Inl ValueError, st)"
  using assms by (simp add: wds_unfold svds_checked_def seq_def)


text \<open>The rank check passes and the numerical core fails: its failure is the outcome.\<close>

lemma wds_core_fails:
  assumes "\<not> (rmax < 1 \<or> int (min_shape (slice_rows 0 (train_size Y split) Y)) - 1 < rmax)"
    and "fst (core (slice_rows 0 (train_size Y split) Y) rmax st) = Inl e"
  shows "fst (wasserstein_dim_select (svds_checked core) emd2 Y split rmax st) = Inl e"
proof -
  obtain st1 where "core (slice_rows 0 (train_size Y split) Y) rmax st = (Inl e, st1)"
    using assms(2) by (cases "core (slice_rows 0 (train_size Y split) Y) rmax st") simp
  with assms(1) show ?thesis
    by (simp add: wds_unfold svds_checked_def seq_def)
qed

text \<open>The rank check passes and the core returns a decomposition of the right shape:
  the outcome is that of the loop on the re-sorted \<open>Vh\<close>.\<close>

lemma wds_core_returns:
  assumes ok: "\<not> (rmax < 1 \<or> int (min_shape (slice_rows 0 (train_size Y split) Y)) - 1 < rmax)"
    and core: "core (slice_rows 0 (train_size Y split) Y) rmax st = (Inr (U, s, Vh), st1)"
    and shape: "svd_shape_ok (slice_rows 0 (train_size Y split) Y) (U, s, Vh)"
  shows "\<exists>Vh'. ncols Vh' = ncols Y \<and>
     wasserstein_dim_select (svds_checked core) emd2 Y split rmax st =
       ws_loop emd2 (slice_rows 0 (train_size Y split) Y)
         (slice_rows (train_size Y split) (int (nrows Y)) Y) Vh' []
         [1..min (train_size Y split) rmax] st1"
proof -
  from shape have "nrows Vh = length s" and c: "ncols Vh = ncols Y"
    by (simp_all add: svd_shape_ok_def)
  from take_rows_resort [OF this(1)] obtain Vh' where
    tk: "take_rows Vh (rev (argsort s)) = Inr Vh'" and c': "ncols Vh' = ncols Vh"
    by blast
  from ok core tk have "wasserstein_dim_select (svds_checked core) emd2 Y split rmax st =
       ws_loop emd2 (slice_rows 0 (train_size Y split) Y)
         (slice_rows (train_size Y split) (int (nrows Y)) Y) Vh' []
         [1..min (train_size Y split) rmax] st1"
    by (simp add: wds_unfold svds_checked_def seq_def)
  with c c' show ?thesis by auto
qed

lemma rank_ok_train_rows:
  assumes "\<not> (rmax < 1 \<or> int (min_shape (slice_rows 0 train Y)) - 1 < rmax)"
  shows "0 < nrows (slice_rows 0 train Y)" and "1 \<le> rmax"
  using assms by (auto simp: min_shape_def)


text \<open>Training rows and test rows on both sides and an admissible rank: no exception
  but a numerical failure of a provider.\<close>

lemma wds_proper_split:
  assumes split: "0 \<le> split" and svds: "svds_contract core" and emd2: "emd2_contract emd2"
    and ok: "\<not> (rmax < 1 \<or> int (min_shape (slice_rows 0 (train_size Y split) Y)) - 1 < rmax)"
    and part: "train_size Y split < int (nrows Y)"
  shows "fst (wasserstein_dim_select (svds_checked core) emd2 Y split rmax st) = Inl ComputationError \<or>
         (\<exists>ws. fst (wasserstein_dim_select (svds_checked core) emd2 Y split rmax st) = Inr ws)"
proof -
  let ?train = "train_size Y split"
  let ?Ytrain = "slice_rows 0 ?train Y"
  let ?Ytest = "slice_rows ?train (int (nrows Y)) Y"
  obtain res st1 where c: "core ?Ytrain rmax st = (res, st1)"
    by (cases "core ?Ytrain rmax st")
  show ?thesis
  proof (cases res)
    case (Inl e)
    with c have f: "fst (core ?Ytrain rmax st) = Inl e" by simp
    then have "e = ComputationError"
      by (rule svds_contractD [OF svds])
    moreover have "fst (wasserstein_dim_select (svds_checked core) emd2 Y split rmax st) = Inl e"
      using ok f by (rule wds_core_fails)
    ultimately show ?thesis by simp
  next
    case (Inr usv)
    obtain U s Vh where usv: "usv = (U, s, Vh)"
      by (cases usv)
    from c Inr have "fst (core ?Ytrain rmax st) = Inr usv" by simp
    then have shape: "svd_shape_ok ?Ytrain (U, s, Vh)"
      unfolding usv by (rule svds_contractD [OF svds])
    from c Inr usv have c': "core ?Ytrain rmax st = (Inr (U, s, Vh), st1)" by simp
    have "\<exists>Vh'. ncols Vh' = ncols Y \<and>
       wasserstein_dim_select (svds_checked core) emd2 Y split rmax st =
         ws_loop emd2 ?Ytrain ?Ytest Vh' [] [1..min ?train rmax] st1"
      using ok c' shape by (rule wds_core_returns)
    then obtain Vh' where
      w: "ncols Vh' = ncols Y" and
      run: "wasserstein_dim_select (svds_checked core) emd2 Y split rmax st =
         ws_loop emd2 ?Ytrain ?Ytest Vh' [] [1..min ?train rmax] st1"
      by blast
    have tr: "0 \<le> ?train"
      using split by (rule train_size_nonneg)
    have test: "0 < nrows ?Ytest"
      using tr part by (simp add: nrows_test_rows)
    have pos: "0 < nrows ?Ytrain"
      using ok by (rule rank_ok_train_rows)
    have "fst (ws_loop emd2 ?Ytrain ?Ytest Vh' [] [1..min ?train rmax] st1) = Inl ComputationError \<or>
         (\<exists>ws. fst (ws_loop emd2 ?Ytrain ?Ytest Vh' [] [1..min ?train rmax] st1) = Inr ws)"
      using emd2 w pos test by (intro ws_loop_no_input_error) simp_all
    with run show ?thesis by simp
  qed
qed




text \<open>
  On the examples: all three rows for training (\<open>split = 9/10\<close>) leaves no test row and
  the first turn of the loop divides by zero; one training row out of two is rejected by
  the rank check; the split \<open>3/4\<close> of four rows with \<open>rmax = 2\<close> is valid and returns.
\<close>

lemma example_contracts: "svds_contract example_core" "emd2_contract example_emd2"
  by (auto simp: svds_contract_def emd2_contract_def example_core_def example_emd2_def
      svd_shape_ok_def A0_def wf_matrix_def)




section \<open>The boundary \<open>rtry = 1\<close>\<close>

text \<open>
  Claim C3 says that with \<open>train = 1\<close> or \<open>rmax = 1\<close> the call still returns a list of
  length 1. With two rows, \<open>split = 1/2\<close> and \<open>rmax = 1\<close>, a valid input, \<open>train = 1\<close>
  and \<open>rtry = 1\<close>, and the call fails: the training array has one row, so the ceiling of
  the rank is \<open>min(1, p) - 1 = 0\<close>.
\<close>

theorem wds_train_one_counterexample:
  "wf_matrix Y1 \<and> nrows Y1 = 2 \<and> ncols Y1 = 2 \<and> train_size Y1 (1/2) = 1 \<and>
   min (train_size Y1 (1/2)) 1 = 1 \<and>
   fst (wasserstein_dim_select (svds_checked example_core) example_emd2 Y1 (1/2) 1 0) = Inl ValueError"
  by (simp add: eval_defs)

text \<open>
  Claim C3, amended. When \<open>train = 1\<close> the call fails with \<open>ValueError\<close> for every
  \<open>rmax\<close>. When \<open>rmax = 1\<close>, \<open>2 \<le> train \<le> n - 1\<close> and \<open>p \<ge> 2\<close>, \<open>rtry = 1\<close> and the call
  raises no input error: it returns a list of length 1 unless a provider fails
  numerically.
\<close>

theorem wds_rank_one_boundary:
  assumes split: "0 \<le> split" and svds: "svds_contract core" and emd2: "emd2_contract emd2"
  shows
    "(train_size Y split = 1 \<longrightarrow>
        wasserstein_dim_select (svds_checked core) emd2 Y split rmax st = (Inl ValueError, st)) \<and>
     (rmax = 1 \<and> 2 \<le> train_size Y split \<and> train_size Y split < int (nrows Y) \<and> 2 \<le> ncols Y \<longrightarrow>
        min (train_size Y split) rmax = 1 \<and>
        (fst (wasserstein_dim_select (svds_checked core) emd2 Y split rmax st) = Inl ComputationError \<or>
         (\<exists>w. fst (wasserstein_dim_select (svds_checked core) emd2 Y split rmax st) = Inr [w])))"
proof (intro conjI impI)
  assume one: "train_size Y split = 1"
  then have "nrows (slice_rows 0 (train_size Y split) Y) \<le> 1"
    by (simp add: nrows_train_rows)
  then have "rmax < 1 \<or> int (min_shape (slice_rows 0 (train_size Y split) Y)) - 1 < rmax"
    by (auto simp: min_shape_def)
  then show "wasserstein_dim_select (svds_checked core) emd2 Y split rmax st = (Inl ValueError, st)"
    by (rule wds_rank_rejected)
next
  let ?run = "wasserstein_dim_select (svds_checked core) emd2 Y split rmax st"
  assume h: "rmax = 1 \<and> 2 \<le> train_size Y split \<and> train_size Y split < int (nrows Y) \<and> 2 \<le> ncols Y"
  then show "min (train_size Y split) rmax = 1" by simp
  from h have "nat (train_size Y split) \<le> nrows Y"
    by linarith
  with h have "nrows (slice_rows 0 (train_size Y split) Y) = nat (train_size Y split)"
    by (simp add: nrows_train_rows)
  moreover from h have "2 \<le> nat (train_size Y split)"
    by linarith
  ultimately have "2 \<le> min_shape (slice_rows 0 (train_size Y split) Y)"
    using h by (simp add: min_shape_def)
  with h have ok: "\<not> (rmax < 1 \<or> int (min_shape (slice_rows 0 (train_size Y split) Y)) - 1 < rmax)"
    by simp
  have "fst ?run = Inl ComputationError \<or> (\<exists>ws. fst ?run = Inr ws)"
    using split svds emd2 ok h by (intro wds_proper_split) simp_all
  moreover have "\<exists>w. ws = [w]" if "fst ?run = Inr ws" for ws
  proof -
    from wds_length [OF that] h have "length ws = 1" by simp
    then show ?thesis
      by (cases ws) simp_all
  qed
  ultimately show "fst ?run = Inl ComputationError \<or> (\<exists>w. fst ?run = Inr [w])"
    by auto
qed

theorem wds_rank_one_boundary_witness:
  "(0::real) \<le> 3/4 \<and> svds_contract example_core \<and> emd2_contract example_emd2 \<and>
   train_size Y1 (1/2) = 1 \<and>
   wasserstein_dim_select (svds_checked example_core) example_emd2 Y1 (1/2) 5 0 = (Inl ValueError, 0) \<and>
   2 \<le> train_size Y0 (3/4) \<and> train_size Y0 (3/4) < int (nrows Y0) \<and> 2 \<le> ncols Y0 \<and>
   min (train_size Y0 (3/4)) 1 = 1 \<and>
   fst (wasserstein_dim_select (svds_checked example_core) example_emd2 Y0 (3/4) 1 0) = Inr [2/3]"
proof -
  have one: "train_size Y1 (1/2) = 1"
    by (simp add: eval_defs)
  have three: "train_size Y0 (3/4) = 3" "nrows Y0 = 4" "ncols Y0 = 3"
    by (simp_all add: eval_defs)
  have "wasserstein_dim_select (svds_checked example_core) example_emd2 Y1 (1/2) 5 0 = (Inl ValueError, 0)"
    using wds_rank_one_boundary [of "1/2" example_core example_emd2 Y1 5 0] one
    by (simp add: example_contracts)
  moreover have "min (train_size Y0 (3/4)) 1 = 1"
    using wds_rank_one_boundary [of "3/4" example_core example_emd2 Y0 1 0] three
    by (simp add: example_contracts)
  ultimately show ?thesis
    using one three by (simp add: example_contracts example_run_rank1)
qed


section \<open>Principal component scores\<close>





end
